theory Spec2Isabelle
  imports Main "HOL-Library.AList"
begin

section \<open>JavaScript values\<close>

text \<open>
  The cached payloads and the task records are plain JavaScript values. An object is the
  list of its own properties in the order in which \<^verbatim>\<open>Object.keys\<close> lists them; its
  prototype is \<^verbatim>\<open>Object.prototype\<close>. An array is the object of its indexed elements.
  Numbers are the integers (timestamps, counters and delays of the program are integral
  milliseconds).
\<close>

datatype jsval =
    JUndefined
  | JNull
  | JBool bool
  | JNum int
  | JStr string
  | JObj "(string \<times> jsval) list"

text \<open>Truthiness, as tested by \<^verbatim>\<open>if (x)\<close> and \<^verbatim>\<open>x || y\<close>.\<close>

fun truthy :: "jsval \<Rightarrow> bool" where
  "truthy JUndefined = False"
| "truthy JNull = False"
| "truthy (JBool b) = b"
| "truthy (JNum n) = (n \<noteq> 0)"
| "truthy (JStr s) = (s \<noteq> [])"
| "truthy (JObj fs) = True"

text \<open>Decimal rendering of a natural number, as a template literal prints it.\<close>

fun dec :: "nat \<Rightarrow> string" where
  "dec n = (if n < 10 then [''0123456789'' ! n]
            else dec (n div 10) @ [''0123456789'' ! (n mod 10)])"

declare dec.simps [simp del]

text \<open>Decimal digit strings and their values.\<close>

definition is_digit :: "char \<Rightarrow> bool" where
  "is_digit c = (c \<in> set ''0123456789'')"

definition digit_value :: "char \<Rightarrow> int" where
  "digit_value c = of_char c - 48"

definition decimal_value :: "string \<Rightarrow> int" where
  "decimal_value s = foldl (\<lambda>acc c. 10 * acc + digit_value c) 0 s"

text \<open>
  Property order. A property name that is an array index (the canonical decimal spelling
  of an integer below \<open>2^32 - 1\<close>) is listed before every other name, in ascending numeric
  order; the other names follow in the order of their creation.
\<close>

definition array_index :: "string \<Rightarrow> int option" where
  "array_index s =
     (if s \<noteq> [] \<and> list_all is_digit s \<and> (s = ''0'' \<or> hd s \<noteq> CHR ''0'') \<and>
         decimal_value s < 4294967295
      then Some (decimal_value s) else None)"

definition index_before :: "string \<Rightarrow> string \<Rightarrow> bool" where
  "index_before k k' =
     (case array_index k of
        None \<Rightarrow> False
      | Some n \<Rightarrow> (case array_index k' of None \<Rightarrow> True | Some n' \<Rightarrow> n < n'))"

text \<open>
  \<^verbatim>\<open>obj[k] = v\<close> on the own properties of an object: an existing property keeps its
  place, a new one takes its place in the property order.
\<close>

fun js_put :: "string \<Rightarrow> 'a \<Rightarrow> (string \<times> 'a) list \<Rightarrow> (string \<times> 'a) list" where
  "js_put k v [] = [(k, v)]"
| "js_put k v (p # ps) =
     (if fst p = k then (k, v) # ps
      else if index_before k (fst p) \<and> k \<notin> set (map fst ps) then (k, v) # p # ps
      else p # js_put k v ps)"

text \<open>A list of distinct properties in creation order, put into property order.\<close>

definition js_add :: "string \<Rightarrow> 'a \<Rightarrow> (string \<times> 'a) list \<Rightarrow> (string \<times> 'a) list" where
  "js_add k v ps = (if k \<in> set (map fst ps) then ps else js_put k v ps)"

definition js_order :: "(string \<times> 'a) list \<Rightarrow> (string \<times> 'a) list" where
  "js_order ps = fold (\<lambda>p acc. js_add (fst p) (snd p) acc) ps []"

text \<open>
  The own enumerable properties copied by an object spread \<^verbatim>\<open>{...x}\<close>: those of an
  object, the indexed characters of a string, nothing for the other primitives.
\<close>

fun own_props :: "jsval \<Rightarrow> (string \<times> jsval) list" where
  "own_props (JObj fs) = fs"
| "own_props (JStr s) = map (\<lambda>i. (dec i, JStr [s ! i])) [0..<length s]"
| "own_props v = []"

text \<open>
  \<^verbatim>\<open>x.data\<close> and \<^verbatim>\<open>x.timestamp\<close> on a value: an own property of an object, and
  \<^verbatim>\<open>undefined\<close> otherwise (no prototype of a value defines these two names).
\<close>

fun get_field :: "jsval \<Rightarrow> string \<Rightarrow> jsval" where
  "get_field (JObj fs) name = (case map_of fs name of None \<Rightarrow> JUndefined | Some v \<Rightarrow> v)"
| "get_field v name = JUndefined"

text \<open>
  The number that \<^verbatim>\<open>Date.now() - x\<close> reads off \<open>x\<close>; \<open>None\<close> is \<^verbatim>\<open>NaN\<close>. Of the
  strings, the decimal digit strings are read here; the other numeric spellings and the
  conversion of an object are outside the model.
\<close>

fun to_number :: "jsval \<Rightarrow> int option" where
  "to_number JUndefined = None"
| "to_number JNull = Some 0"
| "to_number (JBool b) = Some (if b then 1 else 0)"
| "to_number (JNum n) = Some n"
| "to_number (JStr s) = (if list_all is_digit s then Some (decimal_value s) else None)"
| "to_number (JObj fs) = None"

text \<open>\<^verbatim>\<open>s.startsWith(p)\<close>\<close>

definition startsWith :: "string \<Rightarrow> string \<Rightarrow> bool" where
  "startsWith s p = (take (length p) s = p)"


section \<open>The in-memory cache utility\<close>

text \<open>
  The module that the hooks import as \<^verbatim>\<open>utils/cache\<close>; its source is listed at the
  end of \<^verbatim>\<open>src/service-worker.ts\<close>.
  \<^verbatim>\<open>const memoryCache: Record<string, any> = {}\<close> is a plain object that holds entries
  \<^verbatim>\<open>{ data, timestamp }\<close>. \<^verbatim>\<open>Date.now()\<close> is the parameter \<open>now\<close> of every
  operation that reads the clock.

  The store is the list of the pairs written to the object, in the order of their first
  writing. The pair under the name \<^verbatim>\<open>__proto__\<close> is not an own property: the
  assignment \<^verbatim>\<open>memoryCache['__proto__'] = entry\<close> makes the entry the prototype of the
  object, and reading \<^verbatim>\<open>memoryCache['__proto__']\<close> returns it. \<^verbatim>\<open>Object.keys\<close> and
  \<^verbatim>\<open>delete\<close> see the own properties only. Reading any other name that is not an own
  property goes to the prototype chain: to the entry that was made the prototype, if
  any, and then to \<^verbatim>\<open>Object.prototype\<close>.
\<close>

record cache_entry =
  data :: jsval
  timestamp :: int

type_synonym memory_cache = "(string \<times> cache_entry) list"

text \<open>\<^verbatim>\<open>memoryCache['__proto__'] = entry\<close> and \<^verbatim>\<open>memoryCache[key] = entry\<close>.\<close>

definition set_prototype :: "cache_entry \<Rightarrow> memory_cache \<Rightarrow> memory_cache" where
  "set_prototype entry memoryCache = AList.update ''__proto__'' entry memoryCache"

definition set_own :: "string \<Rightarrow> cache_entry \<Rightarrow> memory_cache \<Rightarrow> memory_cache" where
  "set_own key entry memoryCache = AList.update key entry memoryCache"

text \<open>\<^verbatim>\<open>delete memoryCache[key]\<close>: there is no own property \<^verbatim>\<open>__proto__\<close> to delete.\<close>

definition delete_own :: "string \<Rightarrow> memory_cache \<Rightarrow> memory_cache" where
  "delete_own key memoryCache =
     (if key = ''__proto__'' then memoryCache else AList.delete key memoryCache)"

text \<open>\<^verbatim>\<open>Object.keys(memoryCache)\<close>\<close>

definition own_keys :: "memory_cache \<Rightarrow> string list" where
  "own_keys memoryCache =
     map fst (js_order (filter (\<lambda>p. fst p \<noteq> ''__proto__'') memoryCache))"

text \<open>
  What \<^verbatim>\<open>memoryCache[key]\<close> evaluates to: an entry (an own property, or the prototype
  read through \<^verbatim>\<open>__proto__\<close>), \<^verbatim>\<open>Object.prototype\<close> itself (through
  \<^verbatim>\<open>__proto__\<close> when no prototype was set), a method inherited from
  \<^verbatim>\<open>Object.prototype\<close>, the \<^verbatim>\<open>data\<close> or \<^verbatim>\<open>timestamp\<close> of the entry that is the
  prototype, or \<^verbatim>\<open>undefined\<close>.
\<close>

datatype looked =
    Entry cache_entry
  | ObjectPrototype
  | Method
  | Inherited jsval
  | Missing

definition object_prototype_names :: "string list" where
  "object_prototype_names =
     [''constructor'', ''hasOwnProperty'', ''isPrototypeOf'', ''propertyIsEnumerable'',
      ''toLocaleString'', ''toString'', ''valueOf'', ''__defineGetter__'',
      ''__defineSetter__'', ''__lookupGetter__'', ''__lookupSetter__'']"

definition read_key :: "string \<Rightarrow> memory_cache \<Rightarrow> looked" where
  "read_key key memoryCache =
     (case map_of memoryCache key of
        Some entry \<Rightarrow> Entry entry
      | None \<Rightarrow>
          if key = ''__proto__'' then ObjectPrototype
          else
            (case map_of memoryCache ''__proto__'' of
               Some p \<Rightarrow>
                 if key = ''data'' then Inherited (data p)
                 else if key = ''timestamp'' then Inherited (JNum (timestamp p))
                 else if key \<in> set object_prototype_names then Method
                 else Missing
             | None \<Rightarrow>
                 if key \<in> set object_prototype_names then Method else Missing))"

definition setCache :: "int \<Rightarrow> string \<Rightarrow> jsval \<Rightarrow> memory_cache \<Rightarrow> memory_cache" where
  "setCache now key d memoryCache =
     (let entry = \<lparr>data = d, timestamp = now\<rparr>
      in if key = ''__proto__'' then set_prototype entry memoryCache
         else set_own key entry memoryCache)"

text \<open>
  \<^verbatim>\<open>const cached = memoryCache[key]; if (!cached) return null; return cached.data\<close>
\<close>

definition getCache :: "string \<Rightarrow> memory_cache \<Rightarrow> jsval" where
  "getCache key memoryCache =
     (case read_key key memoryCache of
        Entry cached \<Rightarrow> data cached
      | ObjectPrototype \<Rightarrow> JUndefined
      | Method \<Rightarrow> JUndefined
      | Inherited cached \<Rightarrow> if \<not> truthy cached then JNull else get_field cached ''data''
      | Missing \<Rightarrow> JNull)"

text \<open>
  The optional parameter \<^verbatim>\<open>maxAge?: number\<close> is \<open>None\<close> when omitted. The guard
  \<^verbatim>\<open>if (maxAge)\<close> is passed by a number other than zero (\<^verbatim>\<open>NaN\<close>, which is no
  duration, is not among the values of \<open>maxAge\<close> here). A comparison with \<^verbatim>\<open>NaN\<close>,
  which is what \<^verbatim>\<open>Date.now() - undefined\<close> gives, is false.
\<close>

definition isCacheValid :: "int \<Rightarrow> string \<Rightarrow> int option \<Rightarrow> memory_cache \<Rightarrow> bool" where
  "isCacheValid now key maxAge memoryCache =
     (case read_key key memoryCache of
        Missing \<Rightarrow> False
      | Entry cached \<Rightarrow>
          (case maxAge of
             None \<Rightarrow> True
           | Some m \<Rightarrow>
               if m \<noteq> 0 then (let age = now - timestamp cached in age < m)
               else True)
      | ObjectPrototype \<Rightarrow>
          (case maxAge of None \<Rightarrow> True | Some m \<Rightarrow> if m \<noteq> 0 then False else True)
      | Method \<Rightarrow>
          (case maxAge of None \<Rightarrow> True | Some m \<Rightarrow> if m \<noteq> 0 then False else True)
      | Inherited cached \<Rightarrow>
          if \<not> truthy cached then False
          else
            (case maxAge of
               None \<Rightarrow> True
             | Some m \<Rightarrow>
                 if m \<noteq> 0
                 then (case to_number (get_field cached ''timestamp'') of
                         None \<Rightarrow> False
                       | Some t \<Rightarrow> (let age = now - t in age < m))
                 else True))"

definition invalidateCache :: "string \<Rightarrow> memory_cache \<Rightarrow> memory_cache" where
  "invalidateCache key memoryCache = delete_own key memoryCache"


definition clearAllCache :: "memory_cache \<Rightarrow> memory_cache" where
  "clearAllCache memoryCache =
     fold (\<lambda>key mc. delete_own key mc) (own_keys memoryCache) memoryCache"

text \<open>
  \<^verbatim>\<open>const cached = getCache(key); if (cached) setCache(key, { ...cached, [field]: value })\<close>
\<close>

definition updateCachedField ::
  "int \<Rightarrow> string \<Rightarrow> string \<Rightarrow> jsval \<Rightarrow> memory_cache \<Rightarrow> memory_cache" where
  "updateCachedField now key field v memoryCache =
     (let cached = getCache key memoryCache in
      if truthy cached
      then (let updated = JObj (js_put field v (js_order (own_props cached)))
            in setCache now key updated memoryCache)
      else memoryCache)"


section \<open>The task synchronisation hook useTasks\<close>

text \<open>
  A task is an object; the list operations of the hook read its \<^verbatim>\<open>id\<close> property.
  A thrown value is an \<^verbatim>\<open>Error\<close> with its message (an absent message and the
  empty message take the same branch at every test the hook makes).
\<close>

type_synonym task = "(string \<times> jsval) list"

datatype js_error = Error (message: string)

text \<open>The module-level \<^verbatim>\<open>tasksCache: Map<string, { tasks, timestamp }>\<close>.\<close>

record tasks_entry =
  tasks_c :: "task list"
  timestamp_c :: int

type_synonym tasks_cache = "(string \<times> tasks_entry) list"

definition CACHE_TTL :: int where
  "CACHE_TTL = 5 * 60 * 1000"

definition TASK_FETCH_TIMEOUT :: nat where
  "TASK_FETCH_TIMEOUT = 45000"

definition MAX_RETRIES_TIMEOUT :: nat where
  "MAX_RETRIES_TIMEOUT = 5"

definition MAX_RETRIES_OTHER :: nat where
  "MAX_RETRIES_OTHER = 3"

text \<open>Calls that reach the external data source (services/task.service), as a mock records them.\<close>

datatype remote_call =
    FetchTasks string nat
  | CreateTask string task "string option"
  | UpdateTask string task
  | DeleteTask string

text \<open>The two callbacks that \<^verbatim>\<open>loadTasks\<close> passes to \<^verbatim>\<open>setTimeout\<close>.\<close>

datatype timer = ClearLoadingRef | IncrementRetryCount

text \<open>
  A call of \<^verbatim>\<open>loadTasks\<close> that is suspended in an \<^verbatim>\<open>await\<close>: the values its
  closure captured from the render that created it, its own abort signal, and whether it
  waits for the connection checks or for the fetch.
\<close>

datatype stage = AtPrecheck | AtFetch

record load_call =
  userIdC :: string
  retryCountC :: nat
  isOfflineC :: bool
  signalC :: nat
  stageC :: stage

text \<open>
  The state of one hook instance: the four \<^verbatim>\<open>useState\<close> cells, the six refs, the
  hook's argument and the connectivity signal of the current render, the build mode, and
  the runtime around it (abort controllers by allocation number with the list of those
  aborted, the task cache, the log of remote calls, the pending timers with their delays,
  the suspended calls, and whether the page was reloaded).
\<close>

record hook_state =
  tasks :: "task list"
  loading :: bool
  error :: "string option"
  retryCount :: nat
  loadingRef :: bool
  lastLoadTimeRef :: int
  isMountedRef :: bool
  abortControllerRef :: "nat option"
  tabSwitchRecoveryRef :: bool
  userId :: "string option"
  isOffline :: bool
  development :: bool
  controllers :: nat
  aborted :: "nat list"
  tasksCache :: tasks_cache
  remoteLog :: "remote_call list"
  timers :: "(nat \<times> timer) list"
  inflight :: "load_call list"
  reloaded :: bool

definition initial_state :: "string option \<Rightarrow> bool \<Rightarrow> bool \<Rightarrow> tasks_cache \<Rightarrow> hook_state" where
  "initial_state uid offline dev cache =
     \<lparr>tasks = [], loading = True, error = None, retryCount = 0,
      loadingRef = False, lastLoadTimeRef = 0, isMountedRef = True,
      abortControllerRef = None, tabSwitchRecoveryRef = False,
      userId = uid, isOffline = offline, development = dev,
      controllers = 0, aborted = [], tasksCache = cache, remoteLog = [],
      timers = [], inflight = [], reloaded = False\<rparr>"

definition is_aborted :: "nat \<Rightarrow> hook_state \<Rightarrow> bool" where
  "is_aborted c st = (c \<in> set (aborted st))"

text \<open>\<^verbatim>\<open>if (abortControllerRef.current) abortControllerRef.current.abort()\<close>\<close>

definition abort_current :: "hook_state \<Rightarrow> hook_state" where
  "abort_current st =
     (case abortControllerRef st of
        None \<Rightarrow> st
      | Some c \<Rightarrow> st\<lparr>aborted := c # aborted st\<rparr>)"

text \<open>The \<^verbatim>\<open>finally\<close> block of \<^verbatim>\<open>loadTasks\<close>.\<close>

definition loadTasks_finally :: "hook_state \<Rightarrow> hook_state" where
  "loadTasks_finally st =
     (let st1 = (if isMountedRef st then st\<lparr>loading := False\<rparr> else st)
      in st1\<lparr>timers := timers st1 @ [(100, ClearLoadingRef)]\<rparr>)"

text \<open>
  The \<^verbatim>\<open>catch\<close> block of \<^verbatim>\<open>loadTasks\<close>. It tests the controller that
  \<^verbatim>\<open>abortControllerRef\<close> holds when the block runs. \<open>jitter\<close> is the value of
  \<^verbatim>\<open>Math.floor(Math.random() * 1000)\<close>.
\<close>

definition loadTasks_catch :: "load_call \<Rightarrow> js_error \<Rightarrow> nat \<Rightarrow> hook_state \<Rightarrow> hook_state" where
  "loadTasks_catch call err jitter st =
     (if isMountedRef st \<and>
         (case abortControllerRef st of None \<Rightarrow> True | Some c \<Rightarrow> \<not> is_aborted c st)
      then
        (case map_of (tasksCache st) (userIdC call) of
           Some cachedData \<Rightarrow>
             st\<lparr>tasks := tasks_c cachedData,
                error := Some
                  (if message err = ''Task fetch timeout''
                   then ''Using cached data. Failed to refresh: Task fetch timeout after ''
                        @ dec (TASK_FETCH_TIMEOUT div 1000)
                        @ ''s. Network may be slow or server overloaded.''
                   else ''Using cached data. Failed to refresh: ''
                        @ (if message err \<noteq> [] then message err else ''Unknown error''))\<rparr>
         | None \<Rightarrow>
             (let st1 = st\<lparr>error := Some (if message err \<noteq> [] then message err
                                            else ''Failed to load tasks'')\<rparr>;
                  maxRetries = (if message err = ''Task fetch timeout''
                                then MAX_RETRIES_TIMEOUT else MAX_RETRIES_OTHER)
              in if \<not> isOfflineC call \<and> retryCountC call < maxRetries
                 then (let randomOffset = jitter;
                           timeout = min (1000 * 2 ^ retryCountC call + randomOffset) 15000
                       in st1\<lparr>timers := timers st1 @ [(timeout, IncrementRetryCount)]\<rparr>)
                 else if retryCountC call \<ge> maxRetries
                 then st1\<lparr>tabSwitchRecoveryRef := True\<rparr>
                 else st1))
      else st)"

text \<open>
  The success path: the statements after \<^verbatim>\<open>await Promise.race(...)\<close> has delivered
  \<open>fetched\<close>. It tests the signal of its own call.
\<close>

definition loadTasks_success :: "load_call \<Rightarrow> task list \<Rightarrow> int \<Rightarrow> hook_state \<Rightarrow> hook_state" where
  "loadTasks_success call fetched now st =
     (if isMountedRef st \<and> \<not> is_aborted (signalC call) st
      then st\<lparr>tasks := fetched,
              tasksCache := AList.update (userIdC call)
                 \<lparr>tasks_c = fetched, timestamp_c = now\<rparr> (tasksCache st),
              error := None,
              lastLoadTimeRef := now,
              retryCount := 0,
              tabSwitchRecoveryRef := False\<rparr>
      else st)"

text \<open>
  \<^verbatim>\<open>if (signal.aborted) return\<close>, then the call of \<^verbatim>\<open>fetchTasks(userId, signal)\<close>
  inside \<^verbatim>\<open>Promise.race\<close>; the call is then suspended until the race settles.
\<close>

definition loadTasks_fetch :: "load_call \<Rightarrow> hook_state \<Rightarrow> hook_state" where
  "loadTasks_fetch call st =
     (if is_aborted (signalC call) st
      then loadTasks_finally st
      else st\<lparr>remoteLog := remoteLog st @ [FetchTasks (userIdC call) (signalC call)],
              inflight := inflight st @ [call\<lparr>stageC := AtFetch\<rparr>]\<rparr>)"

text \<open>
  Outside development mode the call awaits \<^verbatim>\<open>supabase.auth.getUser()\<close>, then (when
  not offline) \<^verbatim>\<open>testConnection()\<close> and \<^verbatim>\<open>supabase.auth.getSession()\<close>. What
  these deliver is the \<open>precheck\<close>; between them the hook state is neither read nor
  written, so the block runs when the last of them has delivered.
\<close>

datatype precheck =
    GetUserThrows js_error
  | ConnectionThrows js_error
  | NotConnected
  | NoSession
  | Connected

definition loadTasks_offline :: "load_call \<Rightarrow> hook_state \<Rightarrow> hook_state" where
  "loadTasks_offline call st =
     (case map_of (tasksCache st) (userIdC call) of
        Some cachedData \<Rightarrow>
          (if isMountedRef st
           then st\<lparr>tasks := tasks_c cachedData, loading := False,
                   error := Some ''Using cached tasks while offline''\<rparr>
           else st)
      | None \<Rightarrow>
          (if isMountedRef st
           then st\<lparr>tasks := [], error := Some ''Cannot fetch tasks while offline''\<rparr>
           else st))"

fun loadTasks_precheck :: "load_call \<Rightarrow> precheck \<Rightarrow> nat \<Rightarrow> hook_state \<Rightarrow> hook_state" where
  "loadTasks_precheck call (GetUserThrows err) jitter st =
     loadTasks_finally (loadTasks_catch call err jitter st)"
| "loadTasks_precheck call (ConnectionThrows err) jitter st =
     (if isOfflineC call then loadTasks_finally (loadTasks_offline call st)
      else loadTasks_finally (loadTasks_catch call err jitter st))"
| "loadTasks_precheck call NotConnected jitter st =
     (if isOfflineC call then loadTasks_finally (loadTasks_offline call st)
      else loadTasks_finally
             (loadTasks_catch call (Error ''Unable to connect to database'') jitter st))"
| "loadTasks_precheck call NoSession jitter st =
     (if isOfflineC call then loadTasks_finally (loadTasks_offline call st)
      else loadTasks_finally (st\<lparr>reloaded := True\<rparr>))"
| "loadTasks_precheck call Connected jitter st =
     (if isOfflineC call then loadTasks_finally (loadTasks_offline call st)
      else loadTasks_fetch call st)"

text \<open>
  The first statements of the \<^verbatim>\<open>try\<close> block, up to the first \<^verbatim>\<open>await\<close>
  (or, in development mode, up to the fetch). \<open>rc\<close> is the \<^verbatim>\<open>retryCount\<close> that the
  closure of this call captured.
\<close>

definition loadTasks_try :: "string \<Rightarrow> bool \<Rightarrow> nat \<Rightarrow> nat \<Rightarrow> hook_state \<Rightarrow> hook_state" where
  "loadTasks_try uid force signal rc st =
     (let st1 = (if (map_of (tasksCache st) uid = None \<or> force) \<and> isMountedRef st
                 then st\<lparr>loading := True\<rparr> else st);
          st2 = st1\<lparr>loadingRef := True\<rparr>;
          st3 = (if isMountedRef st2 then st2\<lparr>error := None\<rparr> else st2);
          call = \<lparr>userIdC = uid, retryCountC = rc, isOfflineC = isOffline st3,
                  signalC = signal, stageC = AtPrecheck\<rparr>
      in if development st3 then loadTasks_fetch call st3
         else st3\<lparr>inflight := inflight st3 @ [call]\<rparr>)"

text \<open>
  \<^verbatim>\<open>loadTasks({ force })\<close>, from its first statement to its first suspension or
  return. \<open>now\<close> is \<^verbatim>\<open>Date.now()\<close>.
\<close>

definition loadTasks :: "bool \<Rightarrow> int \<Rightarrow> hook_state \<Rightarrow> hook_state" where
  "loadTasks force now st =
     (case userId st of
        None \<Rightarrow> st
      | Some uid \<Rightarrow>
          if uid = [] then st
          else
            (let rc = retryCount st;
                 st1 = abort_current st;
                 signal = controllers st1;
                 st2 = st1\<lparr>abortControllerRef := Some signal, controllers := Suc signal\<rparr>;
                 st3 = (if force
                        then (let s = st2\<lparr>tabSwitchRecoveryRef := True\<rparr>
                              in if isMountedRef s then s\<lparr>retryCount := 0\<rparr> else s)
                        else st2)
             in if loadingRef st3 \<and> \<not> force then st3
                else
                  (let throttleTime = (if tabSwitchRecoveryRef st3 then 1000 else 3000 :: int)
                   in if \<not> force \<and> now - lastLoadTimeRef st3 < throttleTime then st3
                      else
                        (case (if force then None else map_of (tasksCache st3) uid) of
                           Some cachedData \<Rightarrow>
                             if now - timestamp_c cachedData < CACHE_TTL
                             then (if isMountedRef st3
                                   then st3\<lparr>tasks := tasks_c cachedData, loading := False,
                                            error := None\<rparr>
                                   else st3)
                             else loadTasks_try uid force signal rc
                                    (if isMountedRef st3
                                     then st3\<lparr>tasks := tasks_c cachedData\<rparr> else st3)
                         | None \<Rightarrow> loadTasks_try uid force signal rc st3))))"

text \<open>The callbacks of the two timers.\<close>

fun fire :: "timer \<Rightarrow> hook_state \<Rightarrow> hook_state" where
  "fire ClearLoadingRef st = st\<lparr>loadingRef := False\<rparr>"
| "fire IncrementRetryCount st =
     (if isMountedRef st then st\<lparr>retryCount := retryCount st + 1\<rparr> else st)"

text \<open>The cleanup of the effect: the component unmounts (or the effect is re-run).\<close>

definition cleanup :: "hook_state \<Rightarrow> hook_state" where
  "cleanup st = abort_current (st\<lparr>isMountedRef := False\<rparr>)"

text \<open>
  The event loop. The hook is single-threaded: between two suspension points a block
  runs to its end. An event is a call of \<^verbatim>\<open>loadTasks\<close>, the resumption of a
  suspended call (by its signal) with what it awaited, a timer firing (by its position
  among the pending timers), or the effect cleanup.
\<close>

datatype event =
    CallLoad bool int
  | Resume nat precheck nat
  | Settle nat "js_error + task list" int nat
  | Fire nat
  | Cleanup

fun take_call :: "nat \<Rightarrow> stage \<Rightarrow> load_call list \<Rightarrow> (load_call \<times> load_call list) option" where
  "take_call sig stg [] = None"
| "take_call sig stg (c # cs) =
     (if signalC c = sig \<and> stageC c = stg then Some (c, cs)
      else (case take_call sig stg cs of
              None \<Rightarrow> None
            | Some (d, ds) \<Rightarrow> Some (d, c # ds)))"

fun step :: "event \<Rightarrow> hook_state \<Rightarrow> hook_state" where
  "step (CallLoad force now) st = loadTasks force now st"
| "step (Resume sig outcome jitter) st =
     (case take_call sig AtPrecheck (inflight st) of
        None \<Rightarrow> st
      | Some (call, rest) \<Rightarrow> loadTasks_precheck call outcome jitter (st\<lparr>inflight := rest\<rparr>))"
| "step (Settle sig outcome now jitter) st =
     (case take_call sig AtFetch (inflight st) of
        None \<Rightarrow> st
      | Some (call, rest) \<Rightarrow>
          (case outcome of
             Inr fetched \<Rightarrow>
               loadTasks_finally (loadTasks_success call fetched now (st\<lparr>inflight := rest\<rparr>))
           | Inl err \<Rightarrow>
               loadTasks_finally (loadTasks_catch call err jitter (st\<lparr>inflight := rest\<rparr>))))"
| "step (Fire n) st =
     (if n < length (timers st)
      then fire (snd (timers st ! n))
             (st\<lparr>timers := take n (timers st) @ drop (Suc n) (timers st)\<rparr>)
      else st)"
| "step Cleanup st = cleanup st"

definition run :: "event list \<Rightarrow> hook_state \<Rightarrow> hook_state" where
  "run es st = fold step es st"

text \<open>The number of \<^verbatim>\<open>fetchTasks\<close> calls that reached the data source.\<close>

fun is_fetch :: "remote_call \<Rightarrow> bool" where
  "is_fetch (FetchTasks uid sig) = True"
| "is_fetch c = False"

definition fetches :: "hook_state \<Rightarrow> nat" where
  "fetches st = length (filter is_fetch (remoteLog st))"


subsection \<open>Mutations\<close>

text \<open>
  \<^verbatim>\<open>task.id === taskId\<close> and \<^verbatim>\<open>{ ...task, ...updatedTask }\<close>.
\<close>

definition has_id :: "string \<Rightarrow> task \<Rightarrow> bool" where
  "has_id taskId t = (map_of t ''id'' = Some (JStr taskId))"

definition spread2 :: "task \<Rightarrow> task \<Rightarrow> task" where
  "spread2 t u = fold (\<lambda>(k, v) acc. js_put k v acc) (t @ u) []"

text \<open>
  Each handler is an async function with one \<^verbatim>\<open>await\<close>, of the remote call. Its
  first part runs to the remote call and returns the error it throws, if any; its second
  part runs when the remote call has settled with \<open>remote\<close>, and returns what the
  handler's promise settles with.
\<close>

definition handleCreateTask_call ::
  "task \<Rightarrow> string option \<Rightarrow> hook_state \<Rightarrow> js_error option \<times> hook_state" where
  "handleCreateTask_call newTask sectionId st =
     (if isOffline st then (Some (Error ''Cannot create tasks while offline''), st)
      else (case userId st of
              None \<Rightarrow> (Some (Error ''User ID is required''), st)
            | Some uid \<Rightarrow>
                if uid = [] then (Some (Error ''User ID is required''), st)
                else (None, st\<lparr>remoteLog := remoteLog st @ [CreateTask uid newTask sectionId]\<rparr>)))"

definition handleCreateTask_settle ::
  "string \<Rightarrow> js_error + task \<Rightarrow> int \<Rightarrow> hook_state \<Rightarrow> (js_error + task) \<times> hook_state" where
  "handleCreateTask_settle uid remote now st =
     (case remote of
        Inl err \<Rightarrow> (Inl err, st)
      | Inr createdTask \<Rightarrow>
          (Inr createdTask,
           if isMountedRef st
           then (let st1 = st\<lparr>tasks := tasks st @ [createdTask]\<rparr>
                 in case map_of (tasksCache st1) uid of
                      Some cachedData \<Rightarrow>
                        st1\<lparr>tasksCache := AList.update uid
                               \<lparr>tasks_c = tasks_c cachedData @ [createdTask],
                                timestamp_c = now\<rparr> (tasksCache st1)\<rparr>
                    | None \<Rightarrow> st1)
           else st))"

definition handleUpdateTask_call ::
  "string \<Rightarrow> task \<Rightarrow> hook_state \<Rightarrow> js_error option \<times> hook_state" where
  "handleUpdateTask_call taskId updates st =
     (if isOffline st then (Some (Error ''Cannot update tasks while offline''), st)
      else (None, st\<lparr>remoteLog := remoteLog st @ [UpdateTask taskId updates]\<rparr>))"

definition cache_for :: "string option \<Rightarrow> hook_state \<Rightarrow> (string \<times> tasks_entry) option" where
  "cache_for uid st =
     (case uid of
        None \<Rightarrow> None
      | Some u \<Rightarrow>
          if u = [] then None
          else (case map_of (tasksCache st) u of
                  None \<Rightarrow> None
                | Some cachedData \<Rightarrow> Some (u, cachedData)))"

definition handleUpdateTask_settle ::
  "string option \<Rightarrow> string \<Rightarrow> js_error + task \<Rightarrow> int \<Rightarrow> hook_state \<Rightarrow>
     (js_error + task) \<times> hook_state" where
  "handleUpdateTask_settle uid taskId remote now st =
     (case remote of
        Inl err \<Rightarrow> (Inl err, st)
      | Inr updatedTask \<Rightarrow>
          (Inr updatedTask,
           if isMountedRef st
           then (let st1 = st\<lparr>tasks := map (\<lambda>task. if has_id taskId task
                                                    then spread2 task updatedTask else task)
                                           (tasks st)\<rparr>
                 in case cache_for uid st1 of
                      Some (u, cachedData) \<Rightarrow>
                        st1\<lparr>tasksCache := AList.update u
                               \<lparr>tasks_c = map (\<lambda>task. if has_id taskId task
                                                       then spread2 task updatedTask else task)
                                              (tasks_c cachedData),
                                timestamp_c = now\<rparr> (tasksCache st1)\<rparr>
                    | None \<Rightarrow> st1)
           else st))"

definition handleDeleteTask_call :: "string \<Rightarrow> hook_state \<Rightarrow> js_error option \<times> hook_state" where
  "handleDeleteTask_call taskId st =
     (if isOffline st then (Some (Error ''Cannot delete tasks while offline''), st)
      else (None, st\<lparr>remoteLog := remoteLog st @ [DeleteTask taskId]\<rparr>))"

definition handleDeleteTask_settle ::
  "string option \<Rightarrow> string \<Rightarrow> js_error + unit \<Rightarrow> int \<Rightarrow> hook_state \<Rightarrow>
     (js_error + bool) \<times> hook_state" where
  "handleDeleteTask_settle uid taskId remote now st =
     (case remote of
        Inl err \<Rightarrow> (Inl err, st)
      | Inr u0 \<Rightarrow>
          (Inr True,
           if isMountedRef st
           then (let st1 = st\<lparr>tasks := filter (\<lambda>task. \<not> has_id taskId task) (tasks st)\<rparr>
                 in case cache_for uid st1 of
                      Some (u, cachedData) \<Rightarrow>
                        st1\<lparr>tasksCache := AList.update u
                               \<lparr>tasks_c = filter (\<lambda>task. \<not> has_id taskId task)
                                              (tasks_c cachedData),
                                timestamp_c = now\<rparr> (tasksCache st1)\<rparr>
                    | None \<Rightarrow> st1)
           else st))"


subsection \<open>Runs of the hook\<close>









text \<open>
  Events other than a forced load and a timer firing; the calls that wait for their
  connection checks; and the invariant that bounds the fetches issued since a state with
  \<open>base\<close> fetches and no request marked in flight.
\<close>

definition unforced :: "event \<Rightarrow> bool" where
  "unforced e = (case e of CallLoad force now \<Rightarrow> \<not> force | Fire n \<Rightarrow> False | _ \<Rightarrow> True)"

definition waiting :: "hook_state \<Rightarrow> nat" where
  "waiting st = length (filter (\<lambda>c. stageC c = AtPrecheck) (inflight st))"

definition one_fetch_inv :: "nat \<Rightarrow> hook_state \<Rightarrow> bool" where
  "one_fetch_inv base st \<longleftrightarrow>
     (\<not> loadingRef st \<longrightarrow> waiting st = 0 \<and> fetches st = base) \<and>
     waiting st + fetches st \<le> base + 1"

definition load_effect :: "hook_state \<Rightarrow> hook_state \<Rightarrow> bool" where
  "load_effect st r \<longleftrightarrow>
     (loadingRef r = loadingRef st \<and> inflight r = inflight st \<and> remoteLog r = remoteLog st) \<or>
     (\<not> loadingRef st \<and> loadingRef r \<and> waiting r + fetches r \<le> waiting st + fetches st + 1)"

text \<open>
  Concrete runs in development mode for the user \<open>u1\<close>: a load over a cache entry
  that has expired, a first load with nothing cached, and a load superseded by a forced
  load while its fetch is in flight.
\<close>

definition stale_cache :: tasks_cache where
  "stale_cache = [(''u1'', \<lparr>tasks_c = [[(''id'', JStr ''t1'')]], timestamp_c = 0\<rparr>)]"

definition stale_load :: hook_state where
  "stale_load = run [CallLoad False 400000] (initial_state (Some ''u1'') False True stale_cache)"

definition first_load :: hook_state where
  "first_load = run [CallLoad False 10000] (initial_state (Some ''u1'') False True [])"

definition superseded_load :: hook_state where
  "superseded_load =
     run [CallLoad False 10000, CallLoad True 10001] (initial_state (Some ''u1'') False True [])"


section \<open>Properties of the in-memory cache\<close>

lemma map_of_js_put: "map_of (js_put k v ps) = (map_of ps)(k \<mapsto> v)"
  by (induction ps) (auto simp: fun_eq_iff)

lemma map_of_js_add: "map_of (js_add k v ps) = [k \<mapsto> v] ++ map_of ps"
proof (cases "k \<in> set (map fst ps)")
  case True
  then obtain w where "map_of ps k = Some w"
    by (metis map_of_eq_None_iff not_Some_eq set_map)
  then show ?thesis
    using True by (auto simp: js_add_def fun_eq_iff map_add_def split: option.splits)
next
  case False
  then have "map_of ps k = None"
    by (simp add: map_of_eq_None_iff)
  then show ?thesis
    using False by (auto simp: js_add_def map_of_js_put fun_eq_iff map_add_def split: option.splits)
qed

lemma map_of_fold_js_add:
  "map_of (fold (\<lambda>p acc. js_add (fst p) (snd p) acc) ps acc) = map_of ps ++ map_of acc"
proof (induction ps arbitrary: acc)
  case Nil
  then show ?case by simp
next
  case (Cons p ps)
  have a: "map_of ps ++ ([fst p \<mapsto> snd p] ++ map_of acc) = map_of (p # ps) ++ map_of acc"
    by (cases p) (auto simp: fun_eq_iff map_add_def split: option.splits)
  have b: "map_of (fold (\<lambda>p acc. js_add (fst p) (snd p) acc) (p # ps) acc) =
      map_of ps ++ ([fst p \<mapsto> snd p] ++ map_of acc)"
    by (simp only: fold_simps Cons.IH map_of_js_add)
  show ?case
    using b a by (rule trans)
qed

lemma map_of_js_order: "map_of (js_order ps) = map_of ps"
  by (simp add: js_order_def map_of_fold_js_add)





lemma map_of_setCache:
  "map_of (setCache now key d c) k =
     (if k = key then Some \<lparr>data = d, timestamp = now\<rparr> else map_of c k)"
  by (simp add: setCache_def set_prototype_def set_own_def update_conv' Let_def)

lemma read_key_entry: "map_of c key = Some e \<Longrightarrow> read_key key c = Entry e"
  by (simp add: read_key_def)

lemma read_key_none:
  "map_of c key = None \<Longrightarrow>
   map_of c ''__proto__'' = None \<or> (key \<noteq> ''data'' \<and> key \<noteq> ''timestamp'') \<Longrightarrow>
   read_key key c = ObjectPrototype \<or> read_key key c = Method \<or> read_key key c = Missing"
  by (auto simp: read_key_def split: option.splits)




text \<open>
  C3 (as stated). The claim lets \<open>maxAge\<close> range over every value. With \<open>maxAge = 0\<close>
  the guard \<^verbatim>\<open>if (maxAge)\<close> skips the age comparison: an entry written at time 0 is
  reported valid at time 1000, although \<open>1000 \<ge> 0 + 0\<close>. The claim also lets the key
  range over every name. Once an entry is stored under \<^verbatim>\<open>__proto__\<close>, the store
  inherits that entry's \<^verbatim>\<open>data\<close>: the check for the key \<^verbatim>\<open>data\<close>, under which
  nothing was stored, reads the inherited payload and its \<^verbatim>\<open>timestamp\<close> field, and
  is true.
\<close>

theorem isCacheValid_zero_maxAge_counterexample:
  "isCacheValid 1000 ''k'' (Some 0) (setCache 0 ''k'' (JNum 1) []) \<and> \<not> ((1000::int) < 0 + 0) \<and>
   map_of (setCache 5 ''__proto__'' (JObj [(''timestamp'', JNum 7)]) []) ''data'' = None \<and>
   isCacheValid 10 ''data'' (Some 1000)
     (setCache 5 ''__proto__'' (JObj [(''timestamp'', JNum 7)]) [])"
  by (simp add: isCacheValid_def read_key_def map_of_setCache)

text \<open>
  C3 (amended). For every maxAge other than zero, and every key that the store does not
  read through an entry stored under \<^verbatim>\<open>__proto__\<close> (a key that has an entry, or any
  key other than \<^verbatim>\<open>data\<close> and \<^verbatim>\<open>timestamp\<close>, or any key when nothing is stored
  under \<^verbatim>\<open>__proto__\<close>), \<^verbatim>\<open>isCacheValid(key, maxAge)\<close> is true iff an entry exists
  for the key and \<open>now - entry.timestamp < maxAge\<close>; and for every key, after
  \<^verbatim>\<open>setCache(k, v)\<close> at time \<open>T\<close> the check is true at every query time strictly
  before \<open>T + maxAge\<close> and false at every query time at or after it.
\<close>

theorem isCacheValid_nonzero_maxAge:
  "m \<noteq> 0 \<Longrightarrow>
   (map_of c key \<noteq> None \<or> map_of c ''__proto__'' = None \<or>
    (key \<noteq> ''data'' \<and> key \<noteq> ''timestamp'') \<longrightarrow>
      (isCacheValid now key (Some m) c \<longleftrightarrow>
         (\<exists>e. map_of c key = Some e \<and> now - timestamp e < m))) \<and>
   (isCacheValid q key (Some m) (setCache T key v c) \<longleftrightarrow> q < T + m)"
proof (intro conjI impI)
  assume m: "m \<noteq> 0"
  show "isCacheValid q key (Some m) (setCache T key v c) \<longleftrightarrow> q < T + m"
    using m read_key_entry [of "setCache T key v c" key "\<lparr>data = v, timestamp = T\<rparr>"]
    by (auto simp: isCacheValid_def map_of_setCache)
next
  assume m: "m \<noteq> 0"
    and g: "map_of c key \<noteq> None \<or> map_of c ''__proto__'' = None \<or>
      (key \<noteq> ''data'' \<and> key \<noteq> ''timestamp'')"
  show "isCacheValid now key (Some m) c \<longleftrightarrow>
      (\<exists>e. map_of c key = Some e \<and> now - timestamp e < m)"
  proof (cases "map_of c key")
    case (Some e)
    then show ?thesis
      using m by (simp add: isCacheValid_def read_key_entry)
  next
    case None
    with g have "read_key key c = ObjectPrototype \<or> read_key key c = Method \<or>
        read_key key c = Missing"
      by (intro read_key_none) auto
    then show ?thesis
      using m None by (auto simp: isCacheValid_def)
  qed
qed

theorem isCacheValid_nonzero_maxAge_witness:
  "(300000::int) \<noteq> 0 \<and>
   isCacheValid 299999 ''k'' (Some 300000) (setCache 0 ''k'' (JNum 1) []) \<and>
   \<not> isCacheValid 300000 ''k'' (Some 300000) (setCache 0 ''k'' (JNum 1) [])"
  using isCacheValid_nonzero_maxAge [of 300000 "[]" "''k''" 299999 299999 0 "JNum 1"]
    isCacheValid_nonzero_maxAge [of 300000 "[]" "''k''" 300000 300000 0 "JNum 1"]
  by simp

text \<open>
  C9. With \<open>maxAge\<close> omitted or equal to 0 the check is true whenever an entry exists
  for the key, whatever the entry's age; the age is compared with \<open>maxAge\<close> only when
  \<open>maxAge\<close> is a number other than zero.
\<close>

theorem isCacheValid_no_age_check:
  "map_of c key = Some e \<Longrightarrow>
   isCacheValid now key None c \<and>
   isCacheValid now key (Some 0) c \<and>
   (m \<noteq> 0 \<longrightarrow> (isCacheValid now key (Some m) c \<longleftrightarrow> now - timestamp e < m))"
  by (simp add: isCacheValid_def read_key_entry)

theorem isCacheValid_no_age_check_witness:
  "map_of (setCache 0 ''k'' (JNum 1) []) ''k'' = Some \<lparr>data = JNum 1, timestamp = 0\<rparr> \<and>
   isCacheValid 1000000000 ''k'' None (setCache 0 ''k'' (JNum 1) []) \<and>
   isCacheValid 1000000000 ''k'' (Some 0) (setCache 0 ''k'' (JNum 1) []) \<and>
   \<not> isCacheValid 1000000000 ''k'' (Some 5) (setCache 0 ''k'' (JNum 1) [])"
proof -
  have e: "map_of (setCache 0 ''k'' (JNum 1) []) ''k'' = Some \<lparr>data = JNum 1, timestamp = 0\<rparr>"
    by (simp add: map_of_setCache)
  show ?thesis
    using e isCacheValid_no_age_check [OF e, of 1000000000 5] by simp
qed

lemma getCache_entry: "map_of c key = Some e \<Longrightarrow> getCache key c = data e"
  by (simp add: getCache_def read_key_entry)

lemma getCache_none:
  "map_of c key = None \<Longrightarrow>
   map_of c ''__proto__'' = None \<or> (key \<noteq> ''data'' \<and> key \<noteq> ''timestamp'') \<Longrightarrow>
   \<not> truthy (getCache key c)"
  using read_key_none [of c key] by (auto simp: getCache_def)

text \<open>
  C10 (as stated). The claim covers every existing entry, and every key without an
  entry. The guard \<^verbatim>\<open>if (cached)\<close> tests the payload that \<^verbatim>\<open>getCache\<close> returned:
  an entry that holds 0 is neither patched nor refreshed, and stays stale. And once an
  entry is stored under \<^verbatim>\<open>__proto__\<close>, \<^verbatim>\<open>getCache('data')\<close> reads through that
  entry, so the call for the key \<^verbatim>\<open>data\<close>, under which nothing was stored, creates an
  entry.
\<close>

theorem updateCachedField_falsy_counterexample:
  "map_of (setCache 0 ''k'' (JNum 0) []) ''k'' = Some \<lparr>data = JNum 0, timestamp = 0\<rparr> \<and>
   updateCachedField 900 ''k'' ''b'' (JNum 7) (setCache 0 ''k'' (JNum 0) []) =
     setCache 0 ''k'' (JNum 0) [] \<and>
   \<not> isCacheValid 900 ''k'' (Some 500)
       (updateCachedField 900 ''k'' ''b'' (JNum 7) (setCache 0 ''k'' (JNum 0) [])) \<and>
   map_of (setCache 5 ''__proto__'' (JObj [(''data'', JObj [(''a'', JNum 1)])]) []) ''data'' = None \<and>
   map_of (updateCachedField 900 ''data'' ''b'' (JNum 7)
             (setCache 5 ''__proto__'' (JObj [(''data'', JObj [(''a'', JNum 1)])]) [])) ''data'' =
     Some \<lparr>data = JObj [(''a'', JNum 1), (''b'', JNum 7)], timestamp = 900\<rparr>"
  by (simp add: updateCachedField_def getCache_def read_key_def isCacheValid_def map_of_setCache
      js_order_def js_add_def index_before_def array_index_def is_digit_def Let_def)

text \<open>
  C10 (amended). \<^verbatim>\<open>updateCachedField(key, field, value)\<close>, when an entry exists for
  the key and its stored data is truthy (as every object is), replaces the entry: the
  new data is an object that holds the own fields of the stored data with the named
  field set to the new value and every other field as before, the timestamp is the
  current time (so the entry is valid again under any positive maxAge), and the entries
  of the other keys are unchanged. When no entry exists for the key, and the key is not
  \<^verbatim>\<open>data\<close> or \<^verbatim>\<open>timestamp\<close> read through an entry stored under \<^verbatim>\<open>__proto__\<close>,
  the store is left as it is.
\<close>

theorem updateCachedField_patch:
  "(map_of c key = Some e \<and> truthy (data e) \<longrightarrow>
      (\<exists>fs'. map_of (updateCachedField now key field v c) key =
                Some \<lparr>data = JObj fs', timestamp = now\<rparr> \<and>
             map_of fs' field = Some v \<and>
             (\<forall>f. f \<noteq> field \<longrightarrow> map_of fs' f = map_of (own_props (data e)) f)) \<and>
      (\<forall>k. k \<noteq> key \<longrightarrow> map_of (updateCachedField now key field v c) k = map_of c k) \<and>
      (0 < m \<longrightarrow> isCacheValid now key (Some m) (updateCachedField now key field v c))) \<and>
   (map_of c key = None \<and>
    (map_of c ''__proto__'' = None \<or> (key \<noteq> ''data'' \<and> key \<noteq> ''timestamp'')) \<longrightarrow>
      updateCachedField now key field v c = c)"
proof (intro conjI impI)
  assume a: "map_of c key = Some e \<and> truthy (data e)"
  let ?fs = "js_put field v (js_order (own_props (data e)))"
  have u: "updateCachedField now key field v c = setCache now key (JObj ?fs) c"
    using a by (simp add: updateCachedField_def getCache_entry Let_def)
  have "map_of ?fs field = Some v \<and>
      (\<forall>f. f \<noteq> field \<longrightarrow> map_of ?fs f = map_of (own_props (data e)) f)"
    by (simp add: map_of_js_put map_of_js_order)
  then show "\<exists>fs'. map_of (updateCachedField now key field v c) key =
                Some \<lparr>data = JObj fs', timestamp = now\<rparr> \<and>
             map_of fs' field = Some v \<and>
             (\<forall>f. f \<noteq> field \<longrightarrow> map_of fs' f = map_of (own_props (data e)) f)"
    unfolding u by (intro exI [of _ ?fs]) (simp add: map_of_setCache)
  show "\<forall>k. k \<noteq> key \<longrightarrow> map_of (updateCachedField now key field v c) k = map_of c k"
    unfolding u by (simp add: map_of_setCache)
  show "isCacheValid now key (Some m) (updateCachedField now key field v c)" if "0 < m"
    unfolding u using that
      read_key_entry [of "setCache now key (JObj ?fs) c" key "\<lparr>data = JObj ?fs, timestamp = now\<rparr>"]
    by (simp add: isCacheValid_def map_of_setCache)
next
  assume a: "map_of c key = None \<and>
    (map_of c ''__proto__'' = None \<or> (key \<noteq> ''data'' \<and> key \<noteq> ''timestamp''))"
  then have "\<not> truthy (getCache key c)"
    by (intro getCache_none) auto
  then show "updateCachedField now key field v c = c"
    by (simp add: updateCachedField_def Let_def)
qed

theorem updateCachedField_patch_witness:
  "map_of (setCache 0 ''k'' (JObj [(''a'', JNum 1), (''b'', JNum 2)]) []) ''k'' =
     Some \<lparr>data = JObj [(''a'', JNum 1), (''b'', JNum 2)], timestamp = 0\<rparr> \<and>
   \<not> isCacheValid 900 ''k'' (Some 500) (setCache 0 ''k'' (JObj [(''a'', JNum 1), (''b'', JNum 2)]) []) \<and>
   isCacheValid 900 ''k'' (Some 500)
     (updateCachedField 900 ''k'' ''b'' (JNum 7)
        (setCache 0 ''k'' (JObj [(''a'', JNum 1), (''b'', JNum 2)]) [])) \<and>
   updateCachedField 900 ''k'' ''b'' (JNum 7)
        (setCache 0 ''k'' (JObj [(''a'', JNum 1), (''b'', JNum 2)]) []) =
     [(''k'', \<lparr>data = JObj [(''a'', JNum 1), (''b'', JNum 7)], timestamp = 900\<rparr>)] \<and>
   map_of ([] :: memory_cache) ''k'' = None \<and>
   updateCachedField 900 ''k'' ''b'' (JNum 7) [] = []"
proof -
  let ?c = "setCache 0 ''k'' (JObj [(''a'', JNum 1), (''b'', JNum 2)]) []"
  have e: "map_of ?c ''k'' = Some \<lparr>data = JObj [(''a'', JNum 1), (''b'', JNum 2)], timestamp = 0\<rparr>"
    by (simp add: map_of_setCache)
  have v: "isCacheValid 900 ''k'' (Some 500) (updateCachedField 900 ''k'' ''b'' (JNum 7) ?c)"
    using e updateCachedField_patch
      [of ?c "''k''" "\<lparr>data = JObj [(''a'', JNum 1), (''b'', JNum 2)], timestamp = 0\<rparr>"
          900 "''b''" "JNum 7" 500]
    by simp
  have n: "updateCachedField 900 ''k'' ''b'' (JNum 7) [] = []"
    using updateCachedField_patch [of "[]" "''k''" _ 900 "''b''" "JNum 7"] by simp
  show ?thesis
    using e v n
    by (simp add: updateCachedField_def getCache_def read_key_def setCache_def set_own_def
        isCacheValid_def js_order_def js_add_def index_before_def array_index_def
        is_digit_def Let_def)
qed


section \<open>Properties of the hook\<close>

subsection \<open>Retry chain\<close>












subsection \<open>Retries on every schedule\<close>



lemma timers_abort_current [simp]: "timers (abort_current st) = timers st"
  by (simp add: abort_current_def split: option.splits)











subsection \<open>Fetches while a request is marked in flight\<close>

lemma frame_finally [simp]:
  "loadingRef (loadTasks_finally st) = loadingRef st"
  "inflight (loadTasks_finally st) = inflight st"
  "remoteLog (loadTasks_finally st) = remoteLog st"
  by (simp_all add: loadTasks_finally_def Let_def)

lemma frame_catch [simp]:
  "loadingRef (loadTasks_catch call err jitter st) = loadingRef st"
  "inflight (loadTasks_catch call err jitter st) = inflight st"
  "remoteLog (loadTasks_catch call err jitter st) = remoteLog st"
  by (simp_all add: loadTasks_catch_def Let_def split: option.splits)

lemma frame_success [simp]:
  "loadingRef (loadTasks_success call fetched now st) = loadingRef st"
  "inflight (loadTasks_success call fetched now st) = inflight st"
  "remoteLog (loadTasks_success call fetched now st) = remoteLog st"
  by (simp_all add: loadTasks_success_def)

lemma frame_offline [simp]:
  "loadingRef (loadTasks_offline call st) = loadingRef st"
  "inflight (loadTasks_offline call st) = inflight st"
  "remoteLog (loadTasks_offline call st) = remoteLog st"
  by (simp_all add: loadTasks_offline_def split: option.splits)

lemma frame_abort_current [simp]:
  "loadingRef (abort_current st) = loadingRef st"
  "inflight (abort_current st) = inflight st"
  "remoteLog (abort_current st) = remoteLog st"
  by (simp_all add: abort_current_def split: option.splits)

lemma waiting_frame: "inflight st' = inflight st \<Longrightarrow> waiting st' = waiting st"
  by (simp add: waiting_def)

lemma fetches_frame: "remoteLog st' = remoteLog st \<Longrightarrow> fetches st' = fetches st"
  by (simp add: fetches_def)

lemma fetch_effect:
  "loadingRef (loadTasks_fetch call st) = loadingRef st \<and>
   waiting (loadTasks_fetch call st) = waiting st \<and>
   fetches (loadTasks_fetch call st) \<le> fetches st + 1 \<and>
   fetches st \<le> fetches (loadTasks_fetch call st)"
  by (simp add: loadTasks_fetch_def waiting_def fetches_def loadTasks_finally_def Let_def)

lemma precheck_effect:
  "loadingRef (loadTasks_precheck call outcome jitter st) = loadingRef st \<and>
   waiting (loadTasks_precheck call outcome jitter st) = waiting st \<and>
   fetches (loadTasks_precheck call outcome jitter st) \<le> fetches st + 1 \<and>
   fetches st \<le> fetches (loadTasks_precheck call outcome jitter st)"
  using fetch_effect [of call st]
  by (cases outcome) (simp_all add: waiting_def fetches_def)

lemma try_effect:
  "loadingRef (loadTasks_try uid force signal rc st) \<and>
   waiting (loadTasks_try uid force signal rc st) + fetches (loadTasks_try uid force signal rc st)
     \<le> waiting st + fetches st + 1"
proof -
  let ?st3 = "(let st1 = (if (map_of (tasksCache st) uid = None \<or> force) \<and> isMountedRef st
                 then st\<lparr>loading := True\<rparr> else st);
          st2 = st1\<lparr>loadingRef := True\<rparr>
      in (if isMountedRef st2 then st2\<lparr>error := None\<rparr> else st2))"
  have a: "loadingRef ?st3" "waiting ?st3 = waiting st" "fetches ?st3 = fetches st"
    by (simp_all add: Let_def waiting_def fetches_def)
  show ?thesis
  proof (cases "development st")
    case True
    then have d: "development ?st3" by (simp add: Let_def)
    let ?call = "\<lparr>userIdC = uid, retryCountC = rc, isOfflineC = isOffline ?st3,
                  signalC = signal, stageC = AtPrecheck\<rparr>"
    have "loadTasks_try uid force signal rc st = loadTasks_fetch ?call ?st3"
      using d by (simp add: loadTasks_try_def Let_def)
    then show ?thesis
      using fetch_effect [of ?call ?st3] a by simp
  next
    case False
    then have d: "\<not> development ?st3" by (simp add: Let_def)
    let ?call = "\<lparr>userIdC = uid, retryCountC = rc, isOfflineC = isOffline ?st3,
                  signalC = signal, stageC = AtPrecheck\<rparr>"
    have "loadTasks_try uid force signal rc st = ?st3\<lparr>inflight := inflight ?st3 @ [?call]\<rparr>"
      using d by (simp add: loadTasks_try_def Let_def)
    then show ?thesis
      using a by (simp add: waiting_def fetches_def)
  qed
qed

lemma load_effect_frame:
  "loadingRef r = loadingRef st \<Longrightarrow> inflight r = inflight st \<Longrightarrow>
   remoteLog r = remoteLog st \<Longrightarrow> load_effect st r"
  by (simp add: load_effect_def)

lemma load_effect_try:
  assumes "\<not> loadingRef st" "inflight r = inflight st" "remoteLog r = remoteLog st"
  shows "load_effect st (loadTasks_try uid force signal rc r)"
  using try_effect [of uid force signal rc r] waiting_frame [OF assms(2)]
    fetches_frame [OF assms(3)] assms(1)
  by (simp add: load_effect_def)

lemma loadTasks_unforced_effect: "load_effect st (loadTasks False now st)"
proof (cases "userId st")
  case None
  then show ?thesis by (simp add: loadTasks_def load_effect_frame)
next
  case (Some uid)
  show ?thesis
  proof (cases "loadingRef st")
    case True
    then show ?thesis
      using Some by (simp add: loadTasks_def Let_def load_effect_frame)
  next
    case False
    show ?thesis
      using Some False
      by (auto simp: loadTasks_def Let_def split: option.splits
          intro!: load_effect_frame load_effect_try)
  qed
qed

lemma take_call_waiting:
  "take_call sig stg cs = Some (c, rest) \<Longrightarrow>
   length (filter (\<lambda>c. stageC c = AtPrecheck) cs) =
     (if stg = AtPrecheck then Suc (length (filter (\<lambda>c. stageC c = AtPrecheck) rest))
      else length (filter (\<lambda>c. stageC c = AtPrecheck) rest))"
proof (induction cs arbitrary: rest)
  case Nil
  then show ?case by simp
next
  case (Cons a cs)
  show ?case
  proof (cases "signalC a = sig \<and> stageC a = stg")
    case True
    then show ?thesis using Cons.prems by (cases stg) auto
  next
    case False
    then obtain ds where ds: "take_call sig stg cs = Some (c, ds)" "rest = a # ds"
      using Cons.prems by (auto split: option.splits)
    show ?thesis
      using Cons.IH [OF ds(1)] ds(2) by simp
  qed
qed

lemma take_call_signal:
  "take_call sig stg cs = Some (c, rest) \<Longrightarrow> signalC c = sig \<and> stageC c = stg"
  by (induction cs arbitrary: rest) (auto split: if_splits option.splits)

lemma step_one_fetch:
  assumes "one_fetch_inv base st" "unforced e"
  shows "one_fetch_inv base (step e st)"
proof (cases e)
  case (CallLoad force now)
  then have "step e st = loadTasks False now st"
    using assms(2) by (simp add: unforced_def)
  moreover have "load_effect st (loadTasks False now st)"
    by (rule loadTasks_unforced_effect)
  ultimately show ?thesis
    using assms(1)
    by (auto simp: load_effect_def one_fetch_inv_def waiting_def fetches_def)
next
  case (Resume sig outcome jitter)
  show ?thesis
  proof (cases "take_call sig AtPrecheck (inflight st)")
    case None
    then show ?thesis using assms(1) Resume by simp
  next
    case (Some p)
    obtain call rest where p: "p = (call, rest)" by (cases p) auto
    let ?st = "st\<lparr>inflight := rest\<rparr>"
    have w: "waiting st = Suc (waiting ?st)"
      using take_call_waiting [of sig AtPrecheck "inflight st" call rest] Some p
      by (simp add: waiting_def)
    have f: "fetches ?st = fetches st" "loadingRef ?st = loadingRef st"
      by (simp_all add: fetches_def)
    have s: "step e st = loadTasks_precheck call outcome jitter ?st"
      using Resume Some p by simp
    show ?thesis
      unfolding s using precheck_effect [of call outcome jitter ?st] assms(1) w f
      by (auto simp: one_fetch_inv_def)
  qed
next
  case (Settle sig outcome now jitter)
  show ?thesis
  proof (cases "take_call sig AtFetch (inflight st)")
    case None
    then show ?thesis using assms(1) Settle by simp
  next
    case (Some p)
    obtain call rest where p: "p = (call, rest)" by (cases p) auto
    let ?st = "st\<lparr>inflight := rest\<rparr>"
    have w: "waiting st = waiting ?st"
      using take_call_waiting [of sig AtFetch "inflight st" call rest] Some p
      by (simp add: waiting_def)
    have "waiting (step e st) = waiting ?st \<and> fetches (step e st) = fetches ?st \<and>
          loadingRef (step e st) = loadingRef ?st"
      using Settle Some p
      by (cases outcome) (simp_all add: waiting_def fetches_def)
    moreover have "fetches ?st = fetches st" "loadingRef ?st = loadingRef st"
      by (simp_all add: fetches_def)
    ultimately show ?thesis
      using assms(1) w by (simp add: one_fetch_inv_def)
  qed
next
  case (Fire n)
  then show ?thesis using assms(2) by (simp add: unforced_def)
next
  case Cleanup
  then show ?thesis
    using assms(1) by (simp add: one_fetch_inv_def waiting_def fetches_def cleanup_def)
qed

lemma run_one_fetch:
  "one_fetch_inv base st \<Longrightarrow> \<forall>e \<in> set es. unforced e \<Longrightarrow> one_fetch_inv base (run es st)"
  unfolding run_def
  by (induction es arbitrary: st) (simp_all add: step_one_fetch)

lemma skip_when_marked_or_throttled:
  assumes "loadingRef st \<or>
           now - lastLoadTimeRef st < (if tabSwitchRecoveryRef st then 1000 else 3000)"
  shows "remoteLog (step (CallLoad False now) st) = remoteLog st \<and>
         inflight (step (CallLoad False now) st) = inflight st \<and>
         loadingRef (step (CallLoad False now) st) = loadingRef st"
  using assms
  by (cases "abortControllerRef st")
     (auto simp: loadTasks_def Let_def abort_current_def split: option.splits)

lemma success_records_time:
  assumes "take_call sig AtFetch (inflight st) = Some (call, rest)"
    and "isMountedRef st" "\<not> is_aborted sig st"
  shows "lastLoadTimeRef (step (Settle sig (Inr fetched) T jitter) st) = T \<and>
         \<not> tabSwitchRecoveryRef (step (Settle sig (Inr fetched) T jitter) st)"
proof -
  have "signalC call = sig"
    using take_call_signal [OF assms(1)] by simp
  then show ?thesis
    using assms
    by (simp add: loadTasks_success_def loadTasks_finally_def is_aborted_def Let_def)
qed

subsection \<open>Evaluated runs\<close>

lemma timeout_seconds: "dec (TASK_FETCH_TIMEOUT div 1000) = ''45''"
  by (simp add: TASK_FETCH_TIMEOUT_def dec.simps)

lemma stale_load_eq:
  "stale_load =
     \<lparr>tasks = [[(''id'', JStr ''t1'')]], loading = True, error = None, retryCount = 0,
      loadingRef = True, lastLoadTimeRef = 0, isMountedRef = True,
      abortControllerRef = Some 0, tabSwitchRecoveryRef = False,
      userId = Some ''u1'', isOffline = False, development = True,
      controllers = 1, aborted = [], tasksCache = stale_cache,
      remoteLog = [FetchTasks ''u1'' 0], timers = [],
      inflight = [\<lparr>userIdC = ''u1'', retryCountC = 0, isOfflineC = False, signalC = 0,
          stageC = AtFetch\<rparr>], reloaded = False\<rparr>"
  by (simp add: stale_load_def run_def loadTasks_def loadTasks_try_def loadTasks_fetch_def
      abort_current_def is_aborted_def initial_state_def stale_cache_def CACHE_TTL_def Let_def)

lemma first_load_eq:
  "first_load =
     \<lparr>tasks = [], loading = True, error = None, retryCount = 0,
      loadingRef = True, lastLoadTimeRef = 0, isMountedRef = True,
      abortControllerRef = Some 0, tabSwitchRecoveryRef = False,
      userId = Some ''u1'', isOffline = False, development = True,
      controllers = 1, aborted = [], tasksCache = [],
      remoteLog = [FetchTasks ''u1'' 0], timers = [],
      inflight = [\<lparr>userIdC = ''u1'', retryCountC = 0, isOfflineC = False, signalC = 0,
          stageC = AtFetch\<rparr>], reloaded = False\<rparr>"
  by (simp add: first_load_def run_def loadTasks_def loadTasks_try_def loadTasks_fetch_def
      abort_current_def is_aborted_def initial_state_def Let_def)



subsection \<open>De-duplication and throttling of loads\<close>

text \<open>
  C1 (as stated). The claim bounds the fetches of any non-forced loads issued within one
  throttle window. In the run below the first load is issued at 10000 and its fetch fails
  at 10050; the \<^verbatim>\<open>finally\<close> block clears the in-flight marker 100 ms later; a second
  non-forced load at 10200 is neither de-duplicated nor throttled, because
  \<^verbatim>\<open>lastLoadTimeRef\<close> records successful loads only. Two fetches reach the data source
  within 200 ms.
\<close>

theorem loadTasks_second_fetch_counterexample:
  "fetches (run [CallLoad False 10000,
                 Settle 0 (Inl (Error ''Failed to fetch'')) 10050 0,
                 Fire 1,
                 CallLoad False 10200] (initial_state (Some ''u1'') False True [])) = 2 \<and>
   (10200::int) - 10000 < 3000"
  by (simp add: run_def fetches_def loadTasks_def loadTasks_try_def loadTasks_fetch_def
      loadTasks_catch_def loadTasks_finally_def abort_current_def is_aborted_def
      initial_state_def Let_def MAX_RETRIES_OTHER_def)

text \<open>
  C1 (amended). A load that does not pass \<^verbatim>\<open>force=true\<close> is skipped, without a fetch,
  when a request is marked in flight or when less than the throttle window (3 s, 1 s in
  tab-switch recovery mode) has elapsed since the last successful load. Hence: from a
  state with no request in flight, any run of events without a forced load and without a
  timer firing (so that the marker set by the first load stays in place) sends at most
  one fetch to the data source; and after a load has succeeded at time \<open>T\<close>, a non-forced
  load before \<open>T + 3000\<close> sends none.
\<close>

theorem at_most_one_fetch:
  "(\<not> loadingRef st \<and> inflight st = [] \<and> (\<forall>e \<in> set es. unforced e) \<longrightarrow>
      fetches (run es st) \<le> fetches st + 1) \<and>
   (loadingRef st \<or>
    now - lastLoadTimeRef st < (if tabSwitchRecoveryRef st then 1000 else 3000) \<longrightarrow>
      fetches (step (CallLoad False now) st) = fetches st \<and>
      inflight (step (CallLoad False now) st) = inflight st) \<and>
   (take_call sig AtFetch (inflight st) = Some (call, rest) \<and> isMountedRef st \<and>
    \<not> is_aborted sig st \<and> now - T < 3000 \<longrightarrow>
      fetches (run [Settle sig (Inr fetched) T jitter, CallLoad False now] st) = fetches st)"
proof (intro conjI impI)
  assume a: "\<not> loadingRef st \<and> inflight st = [] \<and> (\<forall>e \<in> set es. unforced e)"
  then have "one_fetch_inv (fetches st) st"
    by (simp add: one_fetch_inv_def waiting_def)
  with a have "one_fetch_inv (fetches st) (run es st)"
    by (simp add: run_one_fetch)
  then show "fetches (run es st) \<le> fetches st + 1"
    by (simp add: one_fetch_inv_def)
next
  assume a: "loadingRef st \<or>
    now - lastLoadTimeRef st < (if tabSwitchRecoveryRef st then 1000 else 3000)"
  note s = skip_when_marked_or_throttled [OF a]
  from s show "fetches (step (CallLoad False now) st) = fetches st"
    by (simp add: fetches_def)
  from s show "inflight (step (CallLoad False now) st) = inflight st"
    by simp
next
  assume a: "take_call sig AtFetch (inflight st) = Some (call, rest) \<and> isMountedRef st \<and>
    \<not> is_aborted sig st \<and> now - T < 3000"
  let ?st = "step (Settle sig (Inr fetched) T jitter) st"
  have t: "lastLoadTimeRef ?st = T" "\<not> tabSwitchRecoveryRef ?st"
    using success_records_time [of sig st call rest fetched T jitter] a by simp_all
  have "now - lastLoadTimeRef ?st < (if tabSwitchRecoveryRef ?st then 1000 else 3000)"
    using t a by simp
  then have "remoteLog (step (CallLoad False now) ?st) = remoteLog ?st"
    using skip_when_marked_or_throttled [of ?st now] by blast
  moreover have "remoteLog ?st = remoteLog st"
    using a by simp
  ultimately show
    "fetches (run [Settle sig (Inr fetched) T jitter, CallLoad False now] st) = fetches st"
    by (simp add: run_def fetches_def)
qed

theorem at_most_one_fetch_witness:
  "\<not> loadingRef (initial_state (Some ''u1'') False True []) \<and>
   inflight (initial_state (Some ''u1'') False True []) = [] \<and>
   unforced (CallLoad False 10000) \<and> unforced (CallLoad False 10001) \<and>
   unforced (CallLoad False 10002) \<and>
   fetches (run [CallLoad False 10000, CallLoad False 10001, CallLoad False 10002]
              (initial_state (Some ''u1'') False True [])) \<le> 1 \<and>
   loadingRef first_load \<and>
   fetches (step (CallLoad False 10001) first_load) = 1 \<and>
   take_call 0 AtFetch (inflight first_load) =
     Some (\<lparr>userIdC = ''u1'', retryCountC = 0, isOfflineC = False, signalC = 0,
             stageC = AtFetch\<rparr>, []) \<and>
   isMountedRef first_load \<and> \<not> is_aborted 0 first_load \<and> (10200::int) - 10050 < 3000 \<and>
   fetches (run [Settle 0 (Inr [[(''id'', JStr ''t1'')]]) 10050 0, CallLoad False 10200]
              first_load) = 1"
proof -
  let ?st = "initial_state (Some ''u1'') False True []"
  let ?es = "[CallLoad False 10000, CallLoad False 10001, CallLoad False 10002]"
  let ?call = "\<lparr>userIdC = ''u1'', retryCountC = 0, isOfflineC = False, signalC = 0,
             stageC = AtFetch\<rparr>"
  have h1: "\<not> loadingRef ?st \<and> inflight ?st = [] \<and> (\<forall>e \<in> set ?es. unforced e)"
    by (simp add: initial_state_def unforced_def)
  have f0: "fetches ?st = 0"
    by (simp add: initial_state_def fetches_def)
  have c1: "fetches (run ?es ?st) \<le> 1"
    using at_most_one_fetch [of ?st ?es] h1 f0 by simp
  have h2: "loadingRef first_load"
    by (simp add: first_load_eq)
  have f1: "fetches first_load = 1"
    by (simp add: first_load_eq fetches_def)
  have c2: "fetches (step (CallLoad False 10001) first_load) = 1"
    using at_most_one_fetch [of first_load _ 10001] h2 f1 by simp
  have h3: "take_call 0 AtFetch (inflight first_load) = Some (?call, []) \<and>
      isMountedRef first_load \<and> \<not> is_aborted 0 first_load \<and> (10200::int) - 10050 < 3000"
    by (simp add: first_load_eq is_aborted_def)
  have c3: "fetches (run [Settle 0 (Inr [[(''id'', JStr ''t1'')]]) 10050 0, CallLoad False 10200]
              first_load) = 1"
    using at_most_one_fetch [of first_load _ 10200 0 ?call "[]" 10050 "[[(''id'', JStr ''t1'')]]" 0]
      h3 f1 by simp
  have u: "unforced (CallLoad False 10000) \<and> unforced (CallLoad False 10001) \<and>
      unforced (CallLoad False 10002)"
    by (simp add: unforced_def)
  show ?thesis
    using h1 u c1 h2 c2 h3 c3 by blast
qed


subsection \<open>Superseded loads\<close>

text \<open>
  C2. The claim: a load whose abort signal was aborted by a newer load updates neither
  the items, the loading flag, the error, the retry counter nor the cache. In the run
  \<open>superseded_load\<close> the first load (signal 0) is aborted by a forced load while its
  fetch is in flight. When that fetch then rejects, the \<^verbatim>\<open>catch\<close> block tests the
  controller that \<^verbatim>\<open>abortControllerRef\<close> holds at that moment, which is the newer one,
  so the superseded load sets the error, schedules an increment of the retry counter, and
  its \<^verbatim>\<open>finally\<close> block clears the loading flag of the load that superseded it.
\<close>

theorem superseded_failure_mutates_state:
  "is_aborted 0 superseded_load \<and>
   take_call 0 AtFetch (inflight superseded_load) =
     Some (\<lparr>userIdC = ''u1'', retryCountC = 0, isOfflineC = False, signalC = 0,
             stageC = AtFetch\<rparr>,
           [\<lparr>userIdC = ''u1'', retryCountC = 0, isOfflineC = False, signalC = 1,
             stageC = AtFetch\<rparr>]) \<and>
   error superseded_load = None \<and>
   loading superseded_load \<and>
   timers superseded_load = [] \<and>
   error (step (Settle 0 (Inl (Error ''Failed to fetch'')) 10002 0) superseded_load) =
     Some ''Failed to fetch'' \<and>
   \<not> loading (step (Settle 0 (Inl (Error ''Failed to fetch'')) 10002 0) superseded_load) \<and>
   timers (step (Settle 0 (Inl (Error ''Failed to fetch'')) 10002 0) superseded_load) =
     [(1000, IncrementRetryCount), (100, ClearLoadingRef)]"
  by (simp add: superseded_load_def run_def loadTasks_def loadTasks_try_def loadTasks_fetch_def
      loadTasks_catch_def loadTasks_finally_def abort_current_def is_aborted_def
      initial_state_def Let_def MAX_RETRIES_OTHER_def)


subsection \<open>Retry backoff\<close>





subsection \<open>Mutations\<close>

text \<open>
  C5. While the connectivity signal reports offline, each of create, update and delete
  rejects at once with its own offline error
  (\<^verbatim>\<open>Cannot create/update/delete tasks while offline\<close>) and leaves the whole state as
  it was: no call is added to the log of the data source, and items, cache and error are
  unchanged.
\<close>

theorem offline_blocks_mutations:
  "isOffline st \<Longrightarrow>
   handleCreateTask_call newTask sectionId st =
     (Some (Error ''Cannot create tasks while offline''), st) \<and>
   handleUpdateTask_call taskId updates st =
     (Some (Error ''Cannot update tasks while offline''), st) \<and>
   handleDeleteTask_call taskId st =
     (Some (Error ''Cannot delete tasks while offline''), st)"
  by (simp add: handleCreateTask_call_def handleUpdateTask_call_def handleDeleteTask_call_def)

theorem offline_blocks_mutations_witness:
  "isOffline (initial_state (Some ''u1'') True False []) \<and>
   handleCreateTask_call [(''name'', JStr ''t'')] None (initial_state (Some ''u1'') True False []) =
     (Some (Error ''Cannot create tasks while offline''), initial_state (Some ''u1'') True False []) \<and>
   remoteLog (snd (handleDeleteTask_call ''t1'' (initial_state (Some ''u1'') True False []))) = []"
proof -
  have h: "isOffline (initial_state (Some ''u1'') True False [])"
    by (simp add: initial_state_def)
  show ?thesis
    using h offline_blocks_mutations [OF h, of "[(''name'', JStr ''t'')]" None "''t1''" "[]"]
    by (simp add: initial_state_def)
qed

text \<open>
  C6. For create, update and delete, the part of the handler that runs before the remote
  call has settled changes neither the items nor the cache; and when the remote call
  fails, the handler rejects with that same error and the state is exactly the state in
  which the failure arrived.
\<close>

theorem mutations_confirm_then_apply:
  "(tasks (snd (handleCreateTask_call newTask sectionId st)) = tasks st \<and>
    tasksCache (snd (handleCreateTask_call newTask sectionId st)) = tasksCache st \<and>
    tasks (snd (handleUpdateTask_call taskId updates st)) = tasks st \<and>
    tasksCache (snd (handleUpdateTask_call taskId updates st)) = tasksCache st \<and>
    tasks (snd (handleDeleteTask_call taskId st)) = tasks st \<and>
    tasksCache (snd (handleDeleteTask_call taskId st)) = tasksCache st) \<and>
   handleCreateTask_settle uid (Inl err) now st = (Inl err, st) \<and>
   handleUpdateTask_settle uid' taskId (Inl err) now st = (Inl err, st) \<and>
   handleDeleteTask_settle uid' taskId (Inl err) now st = (Inl err, st)"
  by (simp add: handleCreateTask_call_def handleUpdateTask_call_def handleDeleteTask_call_def
      handleCreateTask_settle_def handleUpdateTask_settle_def handleDeleteTask_settle_def
      split: option.split)

theorem mutations_confirm_then_apply_witness:
  "tasksCache (snd (handleCreateTask_call [(''name'', JStr ''t'')] None stale_load)) = stale_cache \<and>
   tasks (snd (handleCreateTask_call [(''name'', JStr ''t'')] None stale_load)) =
     [[(''id'', JStr ''t1'')]] \<and>
   handleCreateTask_settle ''u1'' (Inl (Error ''insert failed'')) 401000
       (snd (handleCreateTask_call [(''name'', JStr ''t'')] None stale_load)) =
     (Inl (Error ''insert failed''),
      snd (handleCreateTask_call [(''name'', JStr ''t'')] None stale_load))"
  using mutations_confirm_then_apply [of "[(''name'', JStr ''t'')]" None stale_load "''t1''" "[]"
      "''u1''" "Error ''insert failed''" 401000 "Some ''u1''"]
    mutations_confirm_then_apply [of "[(''name'', JStr ''t'')]" None
      "snd (handleCreateTask_call [(''name'', JStr ''t'')] None stale_load)" "''t1''" "[]"
      "''u1''" "Error ''insert failed''" 401000 "Some ''u1''"]
  by (simp add: stale_load_eq)


subsection \<open>Stale data on failure\<close>

text \<open>
  C7. When the race of the fetch against the timeout rejects for a load of a mounted hook
  whose current abort controller has not been aborted, and the cache holds an entry for
  the user, the items become the cached tasks and the error is set; its message begins
  with \<^verbatim>\<open>Using cached data.\<close>, and for a timeout it is the message that names the
  threshold of 45 s.
\<close>

theorem stale_serves_on_failure:
  "take_call sig AtFetch (inflight st) = Some (call, rest) \<Longrightarrow>
   isMountedRef st \<Longrightarrow>
   abortControllerRef st = Some c \<Longrightarrow>
   \<not> is_aborted c st \<Longrightarrow>
   map_of (tasksCache st) (userIdC call) = Some cachedData \<Longrightarrow>
   tasks (step (Settle sig (Inl err) now jitter) st) = tasks_c cachedData \<and>
   (\<exists>msg. error (step (Settle sig (Inl err) now jitter) st) = Some msg \<and>
          startsWith msg ''Using cached data.'') \<and>
   (message err = ''Task fetch timeout'' \<longrightarrow>
      error (step (Settle sig (Inl err) now jitter) st) =
        Some ''Using cached data. Failed to refresh: Task fetch timeout after 45s. Network may be slow or server overloaded.'')"
  by (simp add: loadTasks_finally_def loadTasks_catch_def is_aborted_def timeout_seconds
      startsWith_def)

theorem stale_serves_on_failure_witness:
  "tasks stale_load = [[(''id'', JStr ''t1'')]] \<and>
   tasks (step (Settle 0 (Inl (Error ''Task fetch timeout'')) 445000 0) stale_load) =
     [[(''id'', JStr ''t1'')]] \<and>
   error (step (Settle 0 (Inl (Error ''Task fetch timeout'')) 445000 0) stale_load) =
     Some ''Using cached data. Failed to refresh: Task fetch timeout after 45s. Network may be slow or server overloaded.''"
proof -
  have h1: "take_call 0 AtFetch (inflight stale_load) =
      Some (\<lparr>userIdC = ''u1'', retryCountC = 0, isOfflineC = False, signalC = 0,
          stageC = AtFetch\<rparr>, [])"
    by (simp add: stale_load_eq)
  have h2: "isMountedRef stale_load" by (simp add: stale_load_eq)
  have h3: "abortControllerRef stale_load = Some 0" by (simp add: stale_load_eq)
  have h4: "\<not> is_aborted 0 stale_load" by (simp add: stale_load_eq is_aborted_def)
  have h5: "map_of (tasksCache stale_load)
      (userIdC \<lparr>userIdC = ''u1'', retryCountC = 0, isOfflineC = False, signalC = 0,
          stageC = AtFetch\<rparr>) = Some \<lparr>tasks_c = [[(''id'', JStr ''t1'')]], timestamp_c = 0\<rparr>"
    by (simp add: stale_load_eq stale_cache_def)
  show ?thesis
    using stale_serves_on_failure [OF h1 h2 h3 h4 h5, of "Error ''Task fetch timeout''" 445000 0]
    by (simp add: stale_load_eq)
qed

end
